theory Spec2Isabelle
  imports Main
begin

section \<open>Message schema\<close>

text \<open>
  Modelled from the spec: the five message types. The generated module \<^verbatim>\<open>api_pb2\<close> that
  declares them is not part of the sources; the field lists agree with the constructor
  calls and field accesses in \<^verbatim>\<open>api.py\<close>, and the integer fields are the integers of the
  specification's data model, as Python's own integers are. Field names carry the message
  as a prefix where the plain name (\<^verbatim>\<open>id\<close>, \<^verbatim>\<open>length\<close>, \<^verbatim>\<open>name\<close>) is already a constant of HOL
  or of another message.
\<close>

record HelloRequest =
  req_name :: string

record Hello =
  message :: string

record ApiRequest =
  req_length :: int

record Item =
  item_id :: int
  item_name :: string

record Items =
  items :: "Item list"

section \<open>Formatting an integer\<close>

text \<open>
  The f-string \<^verbatim>\<open>f'name {i}'\<close> formats the integer \<^verbatim>\<open>i\<close> as Python's \<^verbatim>\<open>str(i)\<close>: decimal
  digits, most significant first, no leading zero, a minus sign for a negative number.
\<close>

definition digit_char :: "nat \<Rightarrow> char" where
  "digit_char d = ''0123456789'' ! d"

function str_nat :: "nat \<Rightarrow> string" where
  "str_nat n = (if n < 10 then [digit_char n] else str_nat (n div 10) @ [digit_char (n mod 10)])"
  by pat_completeness auto
termination
  by (relation "measure (\<lambda>n. n)") auto

declare str_nat.simps [simp del]

definition str :: "int \<Rightarrow> string" where
  "str i = (if i < 0 then CHR ''-'' # str_nat (nat (- i)) else str_nat (nat i))"

section \<open>The service: class ApiServer\<close>

text \<open>
  Every handler has the signature \<^verbatim>\<open>(self, request, context)\<close>. The servicer object and
  the call context are kept as arguments, of arbitrary type: no handler reads or assigns
  either of them, and the class declares no attribute.
\<close>

text \<open>
  \<^verbatim>\<open>getAll\<close>: the loop \<^verbatim>\<open>for i in range(1, request.length + 1): data.append(...)\<close>, with the
  loop variable, the end of the range and the list built so far.
\<close>

function getAll_loop :: "int \<Rightarrow> int \<Rightarrow> Item list \<Rightarrow> Item list" where
  "getAll_loop i stop data =
     (if i < stop
      then getAll_loop (i + 1) stop (data @ [\<lparr>item_id = i, item_name = ''name '' @ str i\<rparr>])
      else data)"
  by pat_completeness auto
termination
  by (relation "measure (\<lambda>(i, stop, data). nat (stop - i))") auto

declare getAll_loop.simps [simp del]

definition getAll :: "'self \<Rightarrow> ApiRequest \<Rightarrow> 'ctx \<Rightarrow> Items" where
  "getAll self request context = \<lparr>items = getAll_loop 1 (req_length request + 1) []\<rparr>"

text \<open>
  \<^verbatim>\<open>getStream\<close> is a generator function: calling it runs nothing and returns a generator
  object, here the state of the suspended loop (the next value of \<^verbatim>\<open>i\<close> and the end of the
  range). \<open>gen_next\<close> is one \<^verbatim>\<open>next()\<close> on that object: it yields one item and the advanced
  generator, or \<open>None\<close> for \<^verbatim>\<open>StopIteration\<close>. \<open>drain\<close> is the consumer that calls \<^verbatim>\<open>next()\<close>
  until the generator is exhausted; its result is the sequence the call produces.
\<close>

record getStream_gen =
  gen_i :: int
  gen_stop :: int

definition getStream :: "'self \<Rightarrow> ApiRequest \<Rightarrow> 'ctx \<Rightarrow> getStream_gen" where
  "getStream self request context = \<lparr>gen_i = 1, gen_stop = req_length request + 1\<rparr>"

definition gen_next :: "getStream_gen \<Rightarrow> (Item \<times> getStream_gen) option" where
  "gen_next g =
     (if gen_i g < gen_stop g
      then Some (\<lparr>item_id = gen_i g, item_name = ''name '' @ str (gen_i g)\<rparr>,
                 g\<lparr>gen_i := gen_i g + 1\<rparr>)
      else None)"

function drain :: "getStream_gen \<Rightarrow> Item list" where
  "drain g = (case gen_next g of None \<Rightarrow> [] | Some (x, g') \<Rightarrow> x # drain g')"
  by pat_completeness auto
termination
  by (relation "measure (\<lambda>g. nat (gen_stop g - gen_i g))")
     (auto simp: gen_next_def split: if_splits)

declare drain.simps [simp del]

definition sayHello :: "'self \<Rightarrow> HelloRequest \<Rightarrow> 'ctx \<Rightarrow> Hello" where
  "sayHello self request context = \<lparr>message = ''Hello '' @ req_name request @ ''!''\<rparr>"

section \<open>The client: class ApiClient\<close>

text \<open>
  The client holds a stub (\<^verbatim>\<open>self.client = ApiStub(channel)\<close>). The stub class comes from
  the generated module \<^verbatim>\<open>api_pb2_grpc\<close>, which is not part of the sources, so it is a
  parameter: three functions from a request to either a transport error, which the stub
  raises and the client methods do not catch, or the response received.
\<close>

datatype RpcError = RpcError

record 'stream ApiStub =
  stub_sayHello :: "HelloRequest \<Rightarrow> RpcError + Hello"
  stub_getAll :: "ApiRequest \<Rightarrow> RpcError + Items"
  stub_getStream :: "ApiRequest \<Rightarrow> RpcError + 'stream"

record 'stream ApiClient =
  client :: "'stream ApiStub"

definition ApiClient_sayHello :: "'stream ApiClient \<Rightarrow> string \<Rightarrow> RpcError + string" where
  "ApiClient_sayHello self name =
     (case stub_sayHello (client self) \<lparr>req_name = name\<rparr> of
        Inl e \<Rightarrow> Inl e
      | Inr response \<Rightarrow> Inr (message response))"

definition ApiClient_getAll :: "'stream ApiClient \<Rightarrow> int \<Rightarrow> RpcError + Item list" where
  "ApiClient_getAll self len =
     (case stub_getAll (client self) \<lparr>req_length = len\<rparr> of
        Inl e \<Rightarrow> Inl e
      | Inr response \<Rightarrow> Inr (items response))"

definition ApiClient_getStream :: "'stream ApiClient \<Rightarrow> int \<Rightarrow> RpcError + 'stream" where
  "ApiClient_getStream self len =
     (case stub_getStream (client self) \<lparr>req_length = len\<rparr> of
        Inl e \<Rightarrow> Inl e
      | Inr response \<Rightarrow> Inr response)"

text \<open>
  The client composed with the service: a stub whose every call reaches the handler of a
  servicer and brings its result back unchanged.
\<close>

definition service_stub :: "'self \<Rightarrow> 'ctx \<Rightarrow> getStream_gen ApiStub" where
  "service_stub servicer context =
     \<lparr>stub_sayHello = (\<lambda>request. Inr (sayHello servicer request context)),
      stub_getAll = (\<lambda>request. Inr (getAll servicer request context)),
      stub_getStream = (\<lambda>request. Inr (getStream servicer request context))\<rparr>"

section \<open>The loops in closed form\<close>

lemma getAll_loop_upto:
  "getAll_loop i stop data =
     data @ map (\<lambda>k. \<lparr>item_id = k, item_name = ''name '' @ str k\<rparr>) [i..stop - 1]"
proof (induction i stop data rule: getAll_loop.induct)
  case (1 i stop data)
  show ?case
  proof (cases "i < stop")
    case True
    then have "[i..stop - 1] = i # [i + 1..stop - 1]"
      by (simp add: upto_rec1)
    with True 1 show ?thesis
      by (simp add: getAll_loop.simps [of i])
  next
    case False
    then show ?thesis
      by (simp add: getAll_loop.simps [of i])
  qed
qed

lemma items_getAll:
  "items (getAll self request context) =
     map (\<lambda>k. \<lparr>item_id = k, item_name = ''name '' @ str k\<rparr>) [1..req_length request]"
  by (simp add: getAll_def getAll_loop_upto)

lemma drain_upto:
  "drain g = map (\<lambda>k. \<lparr>item_id = k, item_name = ''name '' @ str k\<rparr>) [gen_i g..gen_stop g - 1]"
proof (induction g rule: drain.induct)
  case (1 g)
  show ?case
  proof (cases "gen_i g < gen_stop g")
    case True
    then have next_g: "gen_next g =
        Some (\<lparr>item_id = gen_i g, item_name = ''name '' @ str (gen_i g)\<rparr>, g\<lparr>gen_i := gen_i g + 1\<rparr>)"
      by (simp add: gen_next_def)
    from True have "[gen_i g..gen_stop g - 1] = gen_i g # [gen_i g + 1..gen_stop g - 1]"
      by (simp add: upto_rec1)
    with next_g 1 [OF next_g refl] show ?thesis
      by (simp add: drain.simps [of g])
  next
    case False
    then show ?thesis
      by (simp add: drain.simps [of g] gen_next_def)
  qed
qed

lemma drain_getStream:
  "drain (getStream self request context) =
     map (\<lambda>k. \<lparr>item_id = k, item_name = ''name '' @ str k\<rparr>) [1..req_length request]"
  by (simp add: getStream_def drain_upto)

lemma produced_item_name:
  "x \<in> set (items (getAll self request context)) \<union> set (drain (getStream self request context))
     \<Longrightarrow> item_name x = ''name '' @ str (item_id x)"
  by (auto simp: items_getAll drain_getStream)

section \<open>Sample runs\<close>

lemma str_examples:
  "str 0 = ''0'' \<and> str 7 = ''7'' \<and> str 10 = ''10'' \<and> str 2048 = ''2048'' \<and> str (- 305) = ''-305''"
  by code_simp

lemma sayHello_examples:
  "sayHello () \<lparr>req_name = ''Ada''\<rparr> () = \<lparr>message = ''Hello Ada!''\<rparr>
   \<and> sayHello () \<lparr>req_name = []\<rparr> () = \<lparr>message = ''Hello !''\<rparr>
   \<and> sayHello () \<lparr>req_name = ''<a&b> !''\<rparr> () = \<lparr>message = ''Hello <a&b> !!''\<rparr>"
  by (simp add: sayHello_def)

section \<open>Properties of the service and the client\<close>

text \<open>
  Claim C1. For a request with \<open>length = n\<close> and \<open>0 \<le> n\<close>, the \<open>items\<close> of the value that
  \<open>getAll\<close> returns has exactly \<open>n\<close> entries, their ids are \<open>1, 2, ..., n\<close> in that order,
  and the name of the entry at every index is \<^verbatim>\<open>"name "\<close> followed by the decimal string
  of that entry's id.
\<close>

theorem getAll_items:
  assumes "0 \<le> n"
  shows "length (items (getAll self \<lparr>req_length = n\<rparr> context)) = nat n
       \<and> map item_id (items (getAll self \<lparr>req_length = n\<rparr> context)) = [1..n]
       \<and> (\<forall>i < length (items (getAll self \<lparr>req_length = n\<rparr> context)).
             item_name (items (getAll self \<lparr>req_length = n\<rparr> context) ! i)
               = ''name '' @ str (item_id (items (getAll self \<lparr>req_length = n\<rparr> context) ! i)))"
  using assms by (simp add: items_getAll comp_def)

theorem getAll_items_witness:
  "(0::int) \<le> 3
   \<and> items (getAll () \<lparr>req_length = 3\<rparr> ())
       = [\<lparr>item_id = 1, item_name = ''name 1''\<rparr>, \<lparr>item_id = 2, item_name = ''name 2''\<rparr>,
          \<lparr>item_id = 3, item_name = ''name 3''\<rparr>]
   \<and> length (items (getAll () \<lparr>req_length = 3\<rparr> ())) = nat 3
   \<and> map item_id (items (getAll () \<lparr>req_length = 3\<rparr> ())) = [1..3]
   \<and> 2 < length (items (getAll () \<lparr>req_length = 3\<rparr> ()))
   \<and> item_name (items (getAll () \<lparr>req_length = 3\<rparr> ()) ! 2)
       = ''name '' @ str (item_id (items (getAll () \<lparr>req_length = 3\<rparr> ()) ! 2))"
proof -
  have h: "(0::int) \<le> 3" by simp
  have e: "items (getAll () \<lparr>req_length = 3\<rparr> ())
       = [\<lparr>item_id = 1, item_name = ''name 1''\<rparr>, \<lparr>item_id = 2, item_name = ''name 2''\<rparr>,
          \<lparr>item_id = 3, item_name = ''name 3''\<rparr>]"
    by code_simp
  note r = getAll_items [OF h, of "()" "()"]
  have l: "2 < length (items (getAll () \<lparr>req_length = 3\<rparr> ()))"
    by (simp add: e)
  note q = conjunct2 [OF conjunct2 [OF r], rule_format, OF l]
  show ?thesis
    by (intro conjI h e conjunct1 [OF r] conjunct1 [OF conjunct2 [OF r]] l q)
qed

text \<open>
  Claim C2. For every string \<open>name\<close>, the empty one and any other, \<open>sayHello\<close> returns the
  \<open>Hello\<close> whose message is \<^verbatim>\<open>"Hello "\<close>, then \<open>name\<close>, then \<^verbatim>\<open>"!"\<close>. The handler has no
  \<^verbatim>\<open>raise\<close> and calls nothing that fails, so the model has no error branch: the equation
  holds for every servicer, request and context.
\<close>

theorem sayHello_message:
  "sayHello self \<lparr>req_name = name\<rparr> context = \<lparr>message = ''Hello '' @ name @ ''!''\<rparr>
   \<and> message (sayHello self \<lparr>req_name = name\<rparr> context) = ''Hello '' @ name @ ''!''"
  by (simp add: sayHello_def)

text \<open>
  Claim C3. For \<open>0 \<le> n\<close>, the sequence of items that the generator returned by
  \<open>getStream\<close> yields until it is exhausted is the \<open>items\<close> list of \<open>getAll\<close> for the same
  request: the same elements in the same order.
\<close>

theorem getStream_eq_getAll:
  assumes "0 \<le> n"
  shows "drain (getStream self \<lparr>req_length = n\<rparr> context)
           = items (getAll self \<lparr>req_length = n\<rparr> context)"
  by (simp add: drain_getStream items_getAll)

theorem getStream_eq_getAll_witness:
  "(0::int) \<le> 3
   \<and> drain (getStream () \<lparr>req_length = 3\<rparr> ()) = items (getAll () \<lparr>req_length = 3\<rparr> ())
   \<and> drain (getStream () \<lparr>req_length = 3\<rparr> ())
       = [\<lparr>item_id = 1, item_name = ''name 1''\<rparr>, \<lparr>item_id = 2, item_name = ''name 2''\<rparr>,
          \<lparr>item_id = 3, item_name = ''name 3''\<rparr>]"
proof -
  have h: "(0::int) \<le> 3" by simp
  have e: "drain (getStream () \<lparr>req_length = 3\<rparr> ())
       = [\<lparr>item_id = 1, item_name = ''name 1''\<rparr>, \<lparr>item_id = 2, item_name = ''name 2''\<rparr>,
          \<lparr>item_id = 3, item_name = ''name 3''\<rparr>]"
    by code_simp
  show ?thesis using h e getStream_eq_getAll [OF h, of "()" "()"] by simp
qed

text \<open>
  Claim C4. For a negative \<open>length\<close>, \<open>getAll\<close> returns an \<open>Items\<close> with no entry, and the
  generator of \<open>getStream\<close> is exhausted at the first \<^verbatim>\<open>next()\<close>, so the stream is empty.
  Neither handler has an error branch: both results are plain values.
\<close>

theorem negative_length_empty:
  assumes "n < 0"
  shows "getAll self \<lparr>req_length = n\<rparr> context = \<lparr>items = []\<rparr>
       \<and> gen_next (getStream self \<lparr>req_length = n\<rparr> context) = None
       \<and> drain (getStream self \<lparr>req_length = n\<rparr> context) = []"
  using assms
  by (simp add: getAll_def getAll_loop.simps [of 1] getStream_def gen_next_def drain.simps)

theorem negative_length_empty_witness:
  "(- 4 :: int) < 0
   \<and> getAll () \<lparr>req_length = - 4\<rparr> () = \<lparr>items = []\<rparr>
   \<and> gen_next (getStream () \<lparr>req_length = - 4\<rparr> ()) = None
   \<and> drain (getStream () \<lparr>req_length = - 4\<rparr> ()) = []"
proof -
  have h: "(- 4 :: int) < 0" by simp
  show ?thesis using h negative_length_empty [OF h, of "()" "()"] by simp
qed

text \<open>
  Claim C5. For \<open>length = 0\<close>, \<open>getAll\<close> returns an \<open>Items\<close> with no entry and the stream
  of \<open>getStream\<close> is empty: both are results, not errors.
\<close>

theorem zero_length_empty:
  "getAll self \<lparr>req_length = 0\<rparr> context = \<lparr>items = []\<rparr>
   \<and> gen_next (getStream self \<lparr>req_length = 0\<rparr> context) = None
   \<and> drain (getStream self \<lparr>req_length = 0\<rparr> context) = []"
  by (simp add: getAll_def getAll_loop.simps [of 1] getStream_def gen_next_def drain.simps)

text \<open>
  Claim C7. For every \<open>length\<close>, at any two positions \<open>j < k\<close> of the sequence that one
  \<open>getStream\<close> call produces, the item at \<open>j\<close> has a strictly smaller id than the item
  at \<open>k\<close>.
\<close>

theorem getStream_strictly_increasing:
  assumes "j < k" and "k < length (drain (getStream self \<lparr>req_length = n\<rparr> context))"
  shows "item_id (drain (getStream self \<lparr>req_length = n\<rparr> context) ! j)
           < item_id (drain (getStream self \<lparr>req_length = n\<rparr> context) ! k)"
proof -
  from assms have k: "1 + int k \<le> n" and j: "1 + int j \<le> n"
    by (simp_all add: drain_getStream)
  from assms have len: "k < length [1..n]" "j < length [1..n]"
    by (simp_all add: drain_getStream)
  from assms(1) show ?thesis
    by (simp add: drain_getStream nth_map [OF len(1)] nth_map [OF len(2)]
        nth_upto [OF k] nth_upto [OF j])
qed

theorem getStream_strictly_increasing_witness:
  "(0::nat) < 2
   \<and> 2 < length (drain (getStream () \<lparr>req_length = 3\<rparr> ()))
   \<and> item_id (drain (getStream () \<lparr>req_length = 3\<rparr> ()) ! 0) = 1
   \<and> item_id (drain (getStream () \<lparr>req_length = 3\<rparr> ()) ! 2) = 3
   \<and> item_id (drain (getStream () \<lparr>req_length = 3\<rparr> ()) ! 0)
       < item_id (drain (getStream () \<lparr>req_length = 3\<rparr> ()) ! 2)"
proof -
  have e: "drain (getStream () \<lparr>req_length = 3\<rparr> ())
       = [\<lparr>item_id = 1, item_name = ''name 1''\<rparr>, \<lparr>item_id = 2, item_name = ''name 2''\<rparr>,
          \<lparr>item_id = 3, item_name = ''name 3''\<rparr>]"
    by code_simp
  have h1: "(0::nat) < 2" by simp
  have h2: "2 < length (drain (getStream () \<lparr>req_length = 3\<rparr> ()))"
    by (simp add: e)
  show ?thesis
    using h1 h2 e getStream_strictly_increasing [OF h1 h2] by simp
qed

text \<open>
  Claim C8. When the stub delivers a \<open>Hello\<close>, the client's \<open>sayHello\<close> returns exactly its
  \<open>message\<close>; when the stub delivers an \<open>Items\<close>, the client's \<open>getAll\<close> returns exactly
  its \<open>items\<close>. With a stub that reaches the service, the client's \<open>sayHello\<close> returns
  \<^verbatim>\<open>"Hello "\<close>, the name and \<^verbatim>\<open>"!"\<close>, and the client's \<open>getAll\<close> returns the item
  sequence of the service.
\<close>

theorem client_returns_response_field:
  "(stub_sayHello (client self) \<lparr>req_name = name\<rparr> = Inr hello
      \<longrightarrow> ApiClient_sayHello self name = Inr (message hello))
   \<and> (stub_getAll (client self) \<lparr>req_length = len\<rparr> = Inr response
      \<longrightarrow> ApiClient_getAll self len = Inr (items response))
   \<and> ApiClient_sayHello \<lparr>client = service_stub servicer context\<rparr> name
       = Inr (''Hello '' @ name @ ''!'')
   \<and> ApiClient_getAll \<lparr>client = service_stub servicer context\<rparr> len
       = Inr (items (getAll servicer \<lparr>req_length = len\<rparr> context))"
  by (simp add: ApiClient_sayHello_def ApiClient_getAll_def service_stub_def sayHello_def)

theorem client_returns_response_field_witness:
  "stub_sayHello (client \<lparr>client = service_stub () ()\<rparr>) \<lparr>req_name = ''Ada''\<rparr>
       = Inr \<lparr>message = ''Hello Ada!''\<rparr>
   \<and> ApiClient_sayHello \<lparr>client = service_stub () ()\<rparr> ''Ada'' = Inr ''Hello Ada!''
   \<and> stub_getAll (client \<lparr>client = service_stub () ()\<rparr>) \<lparr>req_length = 2\<rparr>
       = Inr \<lparr>items = [\<lparr>item_id = 1, item_name = ''name 1''\<rparr>, \<lparr>item_id = 2, item_name = ''name 2''\<rparr>]\<rparr>
   \<and> ApiClient_getAll \<lparr>client = service_stub () ()\<rparr> 2
       = Inr [\<lparr>item_id = 1, item_name = ''name 1''\<rparr>, \<lparr>item_id = 2, item_name = ''name 2''\<rparr>]"
proof -
  have h1: "stub_sayHello (client \<lparr>client = service_stub () ()\<rparr>) \<lparr>req_name = ''Ada''\<rparr>
       = Inr \<lparr>message = ''Hello Ada!''\<rparr>"
    by (simp add: service_stub_def sayHello_def)
  have e: "getAll () \<lparr>req_length = 2\<rparr> ()
       = \<lparr>items = [\<lparr>item_id = 1, item_name = ''name 1''\<rparr>, \<lparr>item_id = 2, item_name = ''name 2''\<rparr>]\<rparr>"
    by code_simp
  have h2: "stub_getAll (client \<lparr>client = service_stub () ()\<rparr>) \<lparr>req_length = 2\<rparr>
       = Inr \<lparr>items = [\<lparr>item_id = 1, item_name = ''name 1''\<rparr>, \<lparr>item_id = 2, item_name = ''name 2''\<rparr>]\<rparr>"
    by (simp add: service_stub_def e)
  show ?thesis
    using h1 h2
      client_returns_response_field [of "\<lparr>client = service_stub () ()\<rparr>" "''Ada''"
        "\<lparr>message = ''Hello Ada!''\<rparr>" 2
        "\<lparr>items = [\<lparr>item_id = 1, item_name = ''name 1''\<rparr>, \<lparr>item_id = 2, item_name = ''name 2''\<rparr>]\<rparr>"
        "()" "()"]
    by simp
qed

text \<open>
  Claim C10. For \<open>0 \<le> m\<close> and \<open>m \<le> n\<close>, the \<open>items\<close> of \<open>getAll\<close> for length \<open>m\<close> are
  exactly the first \<open>m\<close> elements of the \<open>items\<close> of \<open>getAll\<close> for length \<open>n\<close>: the shorter
  list has \<open>m\<close> elements, the longer one has \<open>n\<close>, which is at least \<open>m\<close>, and the shorter
  list is the longer one cut after \<open>m\<close> elements. At every position of the shorter list
  the two lists hold the same item, and that item is fixed by the position alone: at
  position \<open>i\<close>, counted from zero, it is the item with id \<open>i + 1\<close> and name \<^verbatim>\<open>"name "\<close>
  followed by the decimal string of \<open>i + 1\<close>, whatever length was requested.
\<close>

theorem getAll_prefix:
  assumes "0 \<le> m" and "m \<le> n"
  shows "items (getAll self \<lparr>req_length = m\<rparr> context)
           = take (nat m) (items (getAll self' \<lparr>req_length = n\<rparr> context'))
       \<and> length (items (getAll self \<lparr>req_length = m\<rparr> context)) = nat m
       \<and> length (items (getAll self' \<lparr>req_length = n\<rparr> context')) = nat n
       \<and> nat m \<le> nat n
       \<and> (\<forall>i < length (items (getAll self \<lparr>req_length = m\<rparr> context)).
             items (getAll self \<lparr>req_length = m\<rparr> context) ! i
               = items (getAll self' \<lparr>req_length = n\<rparr> context') ! i
             \<and> items (getAll self' \<lparr>req_length = n\<rparr> context') ! i
               = \<lparr>item_id = int i + 1, item_name = ''name '' @ str (int i + 1)\<rparr>)"
proof -
  have split: "[1..n] = [1..m] @ [m + 1..n]"
  proof (cases "m = 0")
    case True
    then show ?thesis by simp
  next
    case False
    with assms have "1 \<le> m" by simp
    from upto_split2 [OF this assms(2)] show ?thesis .
  qed
  from assms(1) have len_m: "length [1..m] = nat m"
    by simp
  from assms have len_n: "length [1..n] = nat n"
    by simp
  have pre: "items (getAll self \<lparr>req_length = m\<rparr> context)
           = take (nat m) (items (getAll self' \<lparr>req_length = n\<rparr> context'))"
    by (simp add: items_getAll split len_m)
  have lm: "length (items (getAll self \<lparr>req_length = m\<rparr> context)) = nat m"
    by (simp add: items_getAll len_m)
  have ln: "length (items (getAll self' \<lparr>req_length = n\<rparr> context')) = nat n"
    by (simp add: items_getAll len_n)
  from assms have le: "nat m \<le> nat n"
    by simp
  have pos: "items (getAll self \<lparr>req_length = m\<rparr> context) ! i
               = items (getAll self' \<lparr>req_length = n\<rparr> context') ! i
             \<and> items (getAll self' \<lparr>req_length = n\<rparr> context') ! i
               = \<lparr>item_id = int i + 1, item_name = ''name '' @ str (int i + 1)\<rparr>"
    if "i < length (items (getAll self \<lparr>req_length = m\<rparr> context))" for i
  proof -
    from that lm have im: "i < nat m" by simp
    with le have "i < nat n" by simp
    with len_n have il: "i < length [1..n]" by simp
    from \<open>i < nat n\<close> have "1 + int i \<le> n" by simp
    from nth_upto [OF this] have at: "[1..n] ! i = 1 + int i" .
    have same: "items (getAll self \<lparr>req_length = m\<rparr> context) ! i
               = items (getAll self' \<lparr>req_length = n\<rparr> context') ! i"
      using im by (simp add: pre)
    have "items (getAll self' \<lparr>req_length = n\<rparr> context') ! i
               = \<lparr>item_id = int i + 1, item_name = ''name '' @ str (int i + 1)\<rparr>"
      by (simp add: items_getAll nth_map [OF il] at add.commute)
    with same show ?thesis by simp
  qed
  from pre lm ln le pos show ?thesis
    by blast
qed

theorem getAll_prefix_witness:
  "(0::int) \<le> 2 \<and> (2::int) \<le> 3
   \<and> items (getAll () \<lparr>req_length = 2\<rparr> ())
       = [\<lparr>item_id = 1, item_name = ''name 1''\<rparr>, \<lparr>item_id = 2, item_name = ''name 2''\<rparr>]
   \<and> items (getAll () \<lparr>req_length = 3\<rparr> ())
       = [\<lparr>item_id = 1, item_name = ''name 1''\<rparr>, \<lparr>item_id = 2, item_name = ''name 2''\<rparr>,
          \<lparr>item_id = 3, item_name = ''name 3''\<rparr>]
   \<and> items (getAll () \<lparr>req_length = 2\<rparr> ())
       = take (nat 2) (items (getAll () \<lparr>req_length = 3\<rparr> ()))
   \<and> length (items (getAll () \<lparr>req_length = 2\<rparr> ())) = nat 2
   \<and> length (items (getAll () \<lparr>req_length = 3\<rparr> ())) = nat 3
   \<and> nat 2 \<le> nat 3
   \<and> 1 < length (items (getAll () \<lparr>req_length = 2\<rparr> ()))
   \<and> items (getAll () \<lparr>req_length = 2\<rparr> ()) ! 1 = items (getAll () \<lparr>req_length = 3\<rparr> ()) ! 1
   \<and> items (getAll () \<lparr>req_length = 3\<rparr> ()) ! 1
       = \<lparr>item_id = int 1 + 1, item_name = ''name '' @ str (int 1 + 1)\<rparr>"
proof -
  have h1: "(0::int) \<le> 2" and h2: "(2::int) \<le> 3" by simp_all
  have e2: "items (getAll () \<lparr>req_length = 2\<rparr> ())
       = [\<lparr>item_id = 1, item_name = ''name 1''\<rparr>, \<lparr>item_id = 2, item_name = ''name 2''\<rparr>]"
    by code_simp
  have e3: "items (getAll () \<lparr>req_length = 3\<rparr> ())
       = [\<lparr>item_id = 1, item_name = ''name 1''\<rparr>, \<lparr>item_id = 2, item_name = ''name 2''\<rparr>,
          \<lparr>item_id = 3, item_name = ''name 3''\<rparr>]"
    by code_simp
  have l: "1 < length (items (getAll () \<lparr>req_length = 2\<rparr> ()))"
    by (simp add: e2)
  note r = getAll_prefix [OF h1 h2, of "()" "()" "()" "()"]
  note r2 = conjunct2 [OF r]
  note r3 = conjunct2 [OF r2]
  note r4 = conjunct2 [OF r3]
  note q = conjunct2 [OF r4, rule_format, OF l]
  show ?thesis
    by (intro conjI h1 h2 e2 e3 conjunct1 [OF r] conjunct1 [OF r2] conjunct1 [OF r3]
        conjunct1 [OF r4] l conjunct1 [OF q] conjunct2 [OF q])
qed

end
